theory Spec2Isabelle
  imports Complex_Main
begin

section \<open>The declarative graph description\<close>

text \<open>
  The canvas component \<^verbatim>\<open>GraphCanvas.vue\<close> receives a list of graph elements and a
  map of validation errors, and keeps a rendering graph (a cytoscape instance) in step
  with them. The element types come from the component's type imports: a node has an
  id, a node type, a position and an optional parent; an edge has an id, a source and a
  target. The fields a node or an edge has besides these are carried along unread, as
  one field of display properties.

  The coordinates of a node are JavaScript numbers that the component only compares,
  with \<open>!==\<close>: a number is NaN, an infinity or a finite value, and \<open>!==\<close> holds
  between two numbers when one of them is NaN or they are different values. The zoom
  level, the pan offset and pointer coordinates, on which the component does arithmetic,
  are real numbers; rounding is outside the model.
\<close>

datatype NodeType = Stochastic | Deterministic | Constant | Observed | Plate

datatype JSNumber = NaN | Num real | PosInfinity | NegInfinity

definition strict_neq :: "JSNumber \<Rightarrow> JSNumber \<Rightarrow> bool" where
  "strict_neq a b \<longleftrightarrow> a = NaN \<or> b = NaN \<or> a \<noteq> b"

type_synonym NodePosition = "JSNumber \<times> JSNumber"

type_synonym Position = "real \<times> real"

record GraphNode =
  node_id :: string
  nodeType :: NodeType
  position :: NodePosition
  parent :: "string option"
  node_props :: "(string \<times> string) list"

record GraphEdge =
  edge_id :: string
  source :: string
  target :: string
  edge_props :: "(string \<times> string) list"

datatype GraphElement = Node GraphNode | Edge GraphEdge

fun element_id :: "GraphElement \<Rightarrow> string" where
  "element_id (Node n) = node_id n"
| "element_id (Edge e) = edge_id e"

fun isNode :: "GraphElement \<Rightarrow> bool" where
  "isNode (Node n) = True"
| "isNode (Edge e) = False"

section \<open>Element definitions handed to the rendering engine\<close>

datatype RelationshipType = RelStochastic | RelDeterministic

datatype Group = Nodes | Edges

text \<open>
  The data payload of a definition: the node's fields and the derived \<open>hasError\<close>, or
  the edge's fields and the derived \<open>relationshipType\<close>.
\<close>

datatype ElementData =
  NodeData GraphNode bool
| EdgeData GraphEdge RelationshipType

record ElementDefinition =
  group :: Group
  data :: ElementData
  def_position :: "NodePosition option"

fun data_id :: "ElementData \<Rightarrow> string" where
  "data_id (NodeData n h) = node_id n"
| "data_id (EdgeData e r) = edge_id e"

fun data_parent :: "ElementData \<Rightarrow> string option" where
  "data_parent (NodeData n h) = parent n"
| "data_parent (EdgeData e r) = None"

text \<open>\<open>targetNode?.nodeType\<close>: the node type of what \<open>find\<close> returned, if anything.\<close>

fun opt_nodeType :: "GraphElement option \<Rightarrow> NodeType option" where
  "opt_nodeType None = None"
| "opt_nodeType (Some (Node n)) = Some (nodeType n)"
| "opt_nodeType (Some (Edge e)) = None"

definition formatElement ::
  "GraphElement list \<Rightarrow> (string \<rightharpoonup> 'e list) \<Rightarrow> GraphElement \<Rightarrow> ElementDefinition" where
  "formatElement elems errors el =
     (case el of
        Node node \<Rightarrow>
          (let hasError = (errors (node_id node) \<noteq> None)
           in \<lparr>group = Nodes, data = NodeData node hasError,
               def_position = Some (position node)\<rparr>)
      | Edge edge \<Rightarrow>
          (let targetNode = find (\<lambda>n. element_id n = target edge \<and> isNode n) elems;
               relType =
                 (if opt_nodeType targetNode = Some Stochastic
                     \<or> opt_nodeType targetNode = Some Observed
                  then RelStochastic else RelDeterministic)
           in \<lparr>group = Edges, data = EdgeData edge relType, def_position = None\<rparr>))"

definition formatElementsForCytoscape ::
  "GraphElement list \<Rightarrow> (string \<rightharpoonup> 'e list) \<Rightarrow> ElementDefinition list" where
  "formatElementsForCytoscape elems errors = map (formatElement elems errors) elems"

section \<open>The rendering engine\<close>

text \<open>
  The cytoscape instance is not part of the component. It is modelled as the in-memory
  store that the component's calls assume: a list of elements, each with a group, a data
  payload, a position and a parent reference, looked up by the id in its payload; a zoom
  level, a pan offset and a viewport size. Every element operation the component invokes
  is recorded in \<open>cy_calls\<close>, so that statements about which operations a pass invokes
  can be made.
\<close>

record CyElement =
  el_group :: Group
  el_data :: ElementData
  el_position :: NodePosition
  el_parent :: "string option"

definition el_id :: "CyElement \<Rightarrow> string" where
  "el_id e = data_id (el_data e)"

datatype Op =
  OpRemove string
| OpAdd string
| OpData string
| OpPosition string NodePosition
| OpMove string "string option"

record Core =
  cy_elements :: "CyElement list"
  cy_zoom :: real
  cy_pan :: Position
  cy_width :: real
  cy_height :: real
  cy_calls :: "Op list"

definition cy_ids :: "Core \<Rightarrow> string list" where
  "cy_ids c = map el_id (cy_elements c)"

text \<open>Modelled from the spec: query by id (\<open>cy.getElementById\<close>).\<close>

definition getElementById :: "Core \<Rightarrow> string \<Rightarrow> CyElement option" where
  "getElementById c i = find (\<lambda>e. el_id e = i) (cy_elements c)"

text \<open>Modelled from the spec: removal of the element with a given id (\<open>ele.remove()\<close>).\<close>

definition ele_remove :: "string \<Rightarrow> Core \<Rightarrow> Core" where
  "ele_remove i c =
     c\<lparr>cy_elements := filter (\<lambda>e. el_id e \<noteq> i) (cy_elements c),
       cy_calls := cy_calls c @ [OpRemove i]\<rparr>"

text \<open>
  Modelled from the spec: creation of an element from a definition (\<open>cy.add\<close>). The new
  element takes the definition's group, payload and position (the origin when the
  definition has none), and the parent named in its payload.
\<close>

definition cy_add :: "ElementDefinition \<Rightarrow> Core \<Rightarrow> Core" where
  "cy_add d c =
     c\<lparr>cy_elements := cy_elements c @
          [\<lparr>el_group = group d, el_data = data d,
            el_position = (case def_position d of Some p \<Rightarrow> p | None \<Rightarrow> (Num 0, Num 0)),
            el_parent = data_parent (data d)\<rparr>],
       cy_calls := cy_calls c @ [OpAdd (data_id (data d))]\<rparr>"

text \<open>
  Modelled from the spec: the three setters on the element with a given id: its payload
  (\<open>ele.data(obj)\<close>), its position (\<open>ele.position(pos)\<close>) and its parent
  (\<open>ele.move({parent})\<close>). An id names at most one element of the store.
\<close>

definition ele_data :: "string \<Rightarrow> ElementData \<Rightarrow> Core \<Rightarrow> Core" where
  "ele_data i d c =
     c\<lparr>cy_elements := map (\<lambda>e. if el_id e = i then e\<lparr>el_data := d\<rparr> else e) (cy_elements c),
       cy_calls := cy_calls c @ [OpData i]\<rparr>"

definition ele_position :: "string \<Rightarrow> NodePosition \<Rightarrow> Core \<Rightarrow> Core" where
  "ele_position i p c =
     c\<lparr>cy_elements := map (\<lambda>e. if el_id e = i then e\<lparr>el_position := p\<rparr> else e) (cy_elements c),
       cy_calls := cy_calls c @ [OpPosition i p]\<rparr>"

definition ele_move :: "string \<Rightarrow> string option \<Rightarrow> Core \<Rightarrow> Core" where
  "ele_move i par c =
     c\<lparr>cy_elements := map (\<lambda>e. if el_id e = i then e\<lparr>el_parent := par\<rparr> else e) (cy_elements c),
       cy_calls := cy_calls c @ [OpMove i par]\<rparr>"

text \<open>
  Modelled from the spec: setting the zoom level anchored at a rendered point
  (\<open>cy.zoom({level, renderedPosition})\<close>): the model point under the rendered point is
  the same before and after.
\<close>

definition zoom_at :: "real \<Rightarrow> Position \<Rightarrow> Core \<Rightarrow> Core" where
  "zoom_at level rp c =
     c\<lparr>cy_zoom := level,
       cy_pan := (fst rp - (fst rp - fst (cy_pan c)) * level / cy_zoom c,
                  snd rp - (snd rp - snd (cy_pan c)) * level / cy_zoom c)\<rparr>"

section \<open>Synchronising the rendering graph with the element list\<close>

text \<open>
  The first loop of the batch: every element of the graph (as it was when the loop
  started) whose id is not among the new ids is removed.
\<close>

definition remove_stale :: "string list \<Rightarrow> Core \<Rightarrow> Core" where
  "remove_stale newElementIds c =
     fold (\<lambda>cyEl c'. if el_id cyEl \<notin> set newElementIds then ele_remove (el_id cyEl) c' else c')
       (cy_elements c) c"

text \<open>
  The body of the second loop, for one formatted element. The element found under the
  id is read once, before its payload is set: setting the payload changes neither its
  position nor its parent, and setting its position does not change its parent. A
  definition of group \<open>Nodes\<close> made by \<open>formatElementsForCytoscape\<close> always has a
  position, so the last case of the position test is never taken on the definitions the
  loop runs over.
\<close>

definition sync_element :: "ElementDefinition \<Rightarrow> Core \<Rightarrow> Core" where
  "sync_element formattedEl c =
     (if data_id (data formattedEl) = [] then c
      else
        (case getElementById c (data_id (data formattedEl)) of
           None \<Rightarrow> cy_add formattedEl c
         | Some existing0 \<Rightarrow>
             (let i = data_id (data formattedEl);
                  c1 = ele_data i (data formattedEl) c
              in if group formattedEl = Nodes then
                   (let currentCyPos = el_position existing0;
                        c2 = (case def_position formattedEl of
                                Some newPos \<Rightarrow>
                                  (if strict_neq (fst newPos) (fst currentCyPos)
                                      \<or> strict_neq (snd newPos) (snd currentCyPos)
                                   then ele_position i newPos c1 else c1)
                              | None \<Rightarrow> c1);
                        currentParentId = el_parent existing0
                    in if data_parent (data formattedEl) \<noteq> currentParentId
                       then ele_move i (data_parent (data formattedEl)) c2 else c2)
                 else c1)))"

definition syncBatch :: "Core \<Rightarrow> GraphElement list \<Rightarrow> (string \<rightharpoonup> 'e list) \<Rightarrow> Core" where
  "syncBatch c elementsToSync errorsToSync =
     (let formattedElements = formatElementsForCytoscape elementsToSync errorsToSync;
          newElementIds = map element_id elementsToSync
      in fold sync_element formattedElements (remove_stale newElementIds c))"

text \<open>
  \<open>syncGraphWithProps\<close> reads the module variable \<open>cy\<close> and does nothing while it is
  \<open>null\<close>; the function returns the variable's content after the call.
\<close>

definition syncGraphWithProps ::
  "Core option \<Rightarrow> GraphElement list \<Rightarrow> (string \<rightharpoonup> 'e list) \<Rightarrow> Core option" where
  "syncGraphWithProps cy0 elementsToSync errorsToSync =
     (case cy0 of
        None \<Rightarrow> None
      | Some c \<Rightarrow> Some (syncBatch c elementsToSync errorsToSync))"

text \<open>
  Two consecutive passes over the same input: the second pass starts from the graph the
  first one left, with an empty record of calls, so that the record of the result holds
  the calls of the second pass alone.
\<close>

definition second_sync ::
  "Core \<Rightarrow> GraphElement list \<Rightarrow> (string \<rightharpoonup> 'e list) \<Rightarrow> Core option" where
  "second_sync c elementsToSync errorsToSync =
     Option.bind (syncGraphWithProps (Some c) elementsToSync errorsToSync)
       (\<lambda>c1. syncGraphWithProps (Some (c1\<lparr>cy_calls := []\<rparr>)) elementsToSync errorsToSync)"


text \<open>
  Two entries agree when they are not both nodes, or do not share an id, or share the
  empty id (such entries are skipped), or give the same position and parent. A list is
  placement consistent when every two of its entries agree; a list with pairwise
  different ids is.
\<close>

definition agree :: "GraphElement \<Rightarrow> GraphElement \<Rightarrow> bool" where
  "agree a b =
     (case (a, b) of
        (Node n, Node m) \<Rightarrow>
           node_id n = [] \<or> node_id n \<noteq> node_id m
           \<or> (position n = position m \<and> parent n = parent m)
      | _ \<Rightarrow> True)"

definition placement_consistent :: "GraphElement list \<Rightarrow> bool" where
  "placement_consistent L = list_all (\<lambda>a. list_all (agree a) L) L"




text \<open>
  What one step of the second loop does to the element with the definition's id, and
  which calls it makes, as functions of the element found under that id before the step.
\<close>

definition apply_def :: "ElementDefinition \<Rightarrow> CyElement option \<Rightarrow> CyElement" where
  "apply_def d eo =
     (case eo of
        None \<Rightarrow>
          \<lparr>el_group = group d, el_data = data d,
            el_position = (case def_position d of Some p \<Rightarrow> p | None \<Rightarrow> (Num 0, Num 0)),
            el_parent = data_parent (data d)\<rparr>
      | Some e \<Rightarrow>
          e\<lparr>el_data := data d,
            el_position :=
              (if group d = Nodes
               then (case def_position d of Some p \<Rightarrow> p | None \<Rightarrow> el_position e)
               else el_position e),
            el_parent := (if group d = Nodes then data_parent (data d) else el_parent e)\<rparr>)"


section \<open>Viewport control\<close>

definition minZoom :: real where
  "minZoom = 0.1"

definition maxZoom :: real where
  "maxZoom = 2"

record BBox =
  bbox_left :: real
  bbox_top :: real

text \<open>
  The component's own state: the module variable \<open>cy\<close>, the reported zoom
  \<open>currentZoom\<close>, and the bounding box of the container element while there is one.
\<close>

record Canvas =
  cy :: "Core option"
  currentZoom :: real
  cyContainer :: "BBox option"

definition zoomIn :: "Canvas \<Rightarrow> Canvas" where
  "zoomIn st =
     (case cy st of
        None \<Rightarrow> st
      | Some c \<Rightarrow>
          (let newZoom = min (cy_zoom c * 1.2) maxZoom
           in st\<lparr>cy := Some (zoom_at newZoom (cy_width c / 2, cy_height c / 2) c),
                 currentZoom := newZoom\<rparr>))"

definition zoomOut :: "Canvas \<Rightarrow> Canvas" where
  "zoomOut st =
     (case cy st of
        None \<Rightarrow> st
      | Some c \<Rightarrow>
          (let newZoom = max (cy_zoom c / 1.2) minZoom
           in st\<lparr>cy := Some (zoom_at newZoom (cy_width c / 2, cy_height c / 2) c),
                 currentZoom := newZoom\<rparr>))"

text \<open>
  \<open>cy.fit()\<close> is the engine's: it chooses zoom and pan from the content and the
  viewport. It is a parameter here.
\<close>

definition resetView :: "(Core \<Rightarrow> Core) \<Rightarrow> Canvas \<Rightarrow> Canvas" where
  "resetView fit st =
     (case cy st of
        None \<Rightarrow> st
      | Some c \<Rightarrow> st\<lparr>cy := Some (fit c), currentZoom := 1\<rparr>)"

text \<open>The argument is the number read from the slider, \<open>Number(target.value)\<close>.\<close>

definition setZoomLevel :: "real \<Rightarrow> Canvas \<Rightarrow> Canvas" where
  "setZoomLevel zoomLevel st =
     (case cy st of
        None \<Rightarrow> st
      | Some c \<Rightarrow>
          st\<lparr>cy := Some (zoom_at zoomLevel (cy_width c / 2, cy_height c / 2) c),
             currentZoom := zoomLevel\<rparr>)"

section \<open>Drops from the palette\<close>

datatype Emitted =
  CanvasTap
| NodeMoved string Position "string option"
| NodeDropped string Position
| PlateEmptied string
| ElementRemove string

record DropEvent =
  dataTransfer :: "string option"
  clientX :: real
  clientY :: real

definition validNodeTypes :: "string list" where
  "validNodeTypes = [''stochastic'', ''deterministic'', ''constant'', ''observed'', ''plate'']"

text \<open>
  Modelled from the spec: the rendering engine's forward transform, model position times
  zoom plus pan, mapped into the frame of the container whose origin is given.
\<close>

definition forwardTransform :: "Position \<Rightarrow> Position \<Rightarrow> Position \<Rightarrow> real \<Rightarrow> Position" where
  "forwardTransform m origin pan zoom =
     (fst origin + (fst m * zoom + fst pan), snd origin + (snd m * zoom + snd pan))"

text \<open>The drop listener; its result is the list of events it emits.\<close>

definition onDrop :: "Canvas \<Rightarrow> DropEvent \<Rightarrow> Emitted list" where
  "onDrop st event =
     (case dataTransfer event of
        None \<Rightarrow> []
      | Some droppedItemType \<Rightarrow>
          (if droppedItemType \<in> set validNodeTypes then
             (case cyContainer st of
                None \<Rightarrow> []
              | Some bbox \<Rightarrow>
                  (case cy st of
                     None \<Rightarrow> []
                   | Some c \<Rightarrow>
                       (let renderedPos =
                              (clientX event - bbox_left bbox, clientY event - bbox_top bbox);
                            pan = cy_pan c;
                            zoom = cy_zoom c;
                            modelPos =
                              ((fst renderedPos - fst pan) / zoom,
                               (snd renderedPos - snd pan) / zoom)
                        in [NodeDropped droppedItemType modelPos])))
           else []))"

section \<open>Concrete inputs\<close>

definition mk_node :: "string \<Rightarrow> NodeType \<Rightarrow> NodePosition \<Rightarrow> string option \<Rightarrow> GraphNode" where
  "mk_node i t pos par =
     \<lparr>node_id = i, nodeType = t, position = pos, parent = par, node_props = []\<rparr>"

definition mk_edge :: "string \<Rightarrow> string \<Rightarrow> string \<Rightarrow> GraphEdge" where
  "mk_edge i s t = \<lparr>edge_id = i, source = s, target = t, edge_props = []\<rparr>"

text \<open>The instance as \<open>initCytoscape\<close> is asked for it: no elements.\<close>

definition empty_core :: Core where
  "empty_core =
     \<lparr>cy_elements = [], cy_zoom = 1, cy_pan = (0, 0), cy_width = 800, cy_height = 600,
      cy_calls = []\<rparr>"

definition no_errors :: "string \<rightharpoonup> string list" where
  "no_errors = Map.empty"



text \<open>
  A rendering graph with the one node \<open>a\<close>; a list whose only node has a NaN
  coordinate; a rendering graph with two nodes, \<open>a\<close> and \<open>old\<close>; an element list that keeps
  \<open>a\<close> as it is, drops \<open>old\<close> and brings a plate, a node inside it and an edge; a
  list in which one id occurs twice with different positions; a list whose only node has
  the empty id.
\<close>

definition rendered_a :: CyElement where
  "rendered_a =
     \<lparr>el_group = Nodes, el_data = NodeData (mk_node ''a'' Stochastic (Num 0, Num 0) None) False,
      el_position = (Num 0, Num 0), el_parent = None\<rparr>"

definition rendered_old :: CyElement where
  "rendered_old =
     \<lparr>el_group = Nodes, el_data = NodeData (mk_node ''old'' Constant (Num 7, Num 7) None) False,
      el_position = (Num 7, Num 7), el_parent = None\<rparr>"


definition nan_list :: "GraphElement list" where
  "nan_list = [Node (mk_node ''a'' Stochastic (NaN, Num 0) None)]"

definition ex_graph :: Core where
  "ex_graph = empty_core\<lparr>cy_elements := [rendered_a, rendered_old]\<rparr>"

definition ex_list :: "GraphElement list" where
  "ex_list =
     [Node (mk_node ''p'' Plate (Num 50, Num 50) None),
      Node (mk_node ''a'' Stochastic (Num 0, Num 0) None),
      Node (mk_node ''b'' Observed (Num 30, Num 40) (Some ''p'')),
      Edge (mk_edge ''e'' ''a'' ''b'')]"

definition dup_list :: "GraphElement list" where
  "dup_list =
     [Node (mk_node ''a'' Stochastic (Num 0, Num 0) None),
      Node (mk_node ''a'' Stochastic (Num 1, Num 1) None)]"

definition blank_list :: "GraphElement list" where
  "blank_list = [Node (mk_node '''' Stochastic (Num 0, Num 0) None)]"

text \<open>
  A fit that finds the content to fit at zoom one half; a mounted canvas at zoom 2 with
  pan (10, 20) in a container whose top left corner is at (100, 50); a drop of a payload
  at the pointer position (150, 100).
\<close>

definition fit_half :: "Core \<Rightarrow> Core" where
  "fit_half c = c\<lparr>cy_zoom := 1 / 2, cy_pan := (0, 0)\<rparr>"

definition mounted :: Canvas where
  "mounted =
     \<lparr>cy = Some (empty_core\<lparr>cy_zoom := 2, cy_pan := (10, 20)\<rparr>), currentZoom = 2,
      cyContainer = Some \<lparr>bbox_left = 100, bbox_top = 50\<rparr>\<rparr>"

definition drop_of :: "string \<Rightarrow> DropEvent" where
  "drop_of kind = \<lparr>dataTransfer = Some kind, clientX = 150, clientY = 100\<rparr>"

section \<open>Formatting: derived fields\<close>

lemma find_first:
  "find P L = Some x \<longleftrightarrow> (\<exists>xs ys. L = xs @ x # ys \<and> P x \<and> (\<forall>y\<in>set xs. \<not> P y))"
proof (induction L)
  case Nil
  then show ?case by simp
next
  case (Cons a L)
  show ?case
  proof (cases "P a")
    case True
    then show ?thesis
      by (auto simp: Cons_eq_append_conv)
  next
    case False
    then show ?thesis
      by (auto simp: Cons.IH Cons_eq_append_conv) (metis set_ConsD)+
  qed
qed

lemma format_nth:
  "formatElementsForCytoscape (pre @ el # post) E ! length pre = formatElement (pre @ el # post) E el"
  by (simp add: formatElementsForCytoscape_def nth_append)

lemma opt_nodeType_Some:
  "opt_nodeType r = Some t \<longleftrightarrow> (\<exists>n. r = Some (Node n) \<and> nodeType n = t)"
  by (cases r rule: opt_nodeType.cases) auto

lemma format_ids:
  "map (\<lambda>d. data_id (data d)) (formatElementsForCytoscape L E) = map element_id L"
  by (auto simp: formatElementsForCytoscape_def formatElement_def Let_def split: GraphElement.splits)

text \<open>
  Claim C6, as the code has it. For every node element at any place of any element list,
  the definition made for it carries the node's fields, its position, and a
  \<open>hasError\<close> flag that is true exactly when the map of validation errors has an entry
  for the node's id, whatever the sequence stored there.
\<close>

theorem hasError_iff_key_present:
  "formatElementsForCytoscape (pre @ Node n # post) E ! length pre =
     \<lparr>group = Nodes, data = NodeData n (node_id n \<in> dom E), def_position = Some (position n)\<rparr>"
  by (simp add: format_nth formatElement_def dom_def)

text \<open>
  Claim C6 as stated fails: a node whose id is mapped to the empty sequence of errors is
  flagged \<open>hasError = True\<close>.
\<close>

theorem hasError_empty_sequence_counterexample:
  "map data (formatElementsForCytoscape [Node (mk_node ''n1'' Stochastic (Num 0, Num 0) None)]
       [''n1'' \<mapsto> ([] :: string list)])
     = [NodeData (mk_node ''n1'' Stochastic (Num 0, Num 0) None) True]"
  by (simp add: formatElementsForCytoscape_def formatElement_def mk_node_def)

text \<open>
  Claim C4, as the code has it. For every edge at any place of any element list, the
  \<open>relationshipType\<close> of the definition made for it is stochastic exactly when the
  first node of the list whose id is the edge's target has node type stochastic or
  observed, and deterministic otherwise (also when no node has that id). The definition
  is a function of the list it is made from and of nothing else.
\<close>

theorem relationshipType_first_target:
  "formatElementsForCytoscape (pre @ Edge e # post) E ! length pre =
     \<lparr>group = Edges,
      data = EdgeData e
        (if (\<exists>xs n ys. pre @ Edge e # post = xs @ Node n # ys
               \<and> target e \<notin> set (map element_id (filter isNode xs))
               \<and> node_id n = target e
               \<and> (nodeType n = Stochastic \<or> nodeType n = Observed))
         then RelStochastic else RelDeterministic),
      def_position = None\<rparr>"
proof -
  let ?L = "pre @ Edge e # post"
  let ?P = "\<lambda>x. element_id x = target e \<and> isNode x"
  have "(opt_nodeType (find ?P ?L) = Some Stochastic \<or> opt_nodeType (find ?P ?L) = Some Observed)
        \<longleftrightarrow> (\<exists>xs n ys. ?L = xs @ Node n # ys
               \<and> target e \<notin> set (map element_id (filter isNode xs))
               \<and> node_id n = target e
               \<and> (nodeType n = Stochastic \<or> nodeType n = Observed))"
    (is "?lhs \<longleftrightarrow> ?rhs")
  proof
    assume ?lhs
    then obtain n where n: "find ?P ?L = Some (Node n)" "nodeType n = Stochastic \<or> nodeType n = Observed"
      by (auto simp: opt_nodeType_Some)
    then obtain xs ys where "?L = xs @ Node n # ys" "?P (Node n)" "\<forall>y\<in>set xs. \<not> ?P y"
      unfolding find_first by blast
    then have "?L = xs @ Node n # ys \<and> target e \<notin> set (map element_id (filter isNode xs))
        \<and> node_id n = target e \<and> (nodeType n = Stochastic \<or> nodeType n = Observed)"
      using n(2) by auto
    then show ?rhs by blast
  next
    assume ?rhs
    then obtain xs n ys where *: "?L = xs @ Node n # ys"
      "target e \<notin> set (map element_id (filter isNode xs))" "node_id n = target e"
      "nodeType n = Stochastic \<or> nodeType n = Observed" by blast
    have "\<not> ?P y" if "y \<in> set xs" for y
    proof
      assume "?P y"
      with that have "y \<in> set (filter isNode xs)" "element_id y = target e" by simp_all
      then have "target e \<in> set (map element_id (filter isNode xs))"
        by (metis image_eqI set_map)
      with *(2) show False by contradiction
    qed
    moreover have "?P (Node n)" using *(3) by simp
    ultimately have "?L = xs @ Node n # ys \<and> ?P (Node n) \<and> (\<forall>y\<in>set xs. \<not> ?P y)"
      using *(1) by blast
    then have "find ?P ?L = Some (Node n)"
      unfolding find_first by blast
    then show ?lhs using *(4) by auto
  qed
  then show ?thesis
    by (simp only: format_nth formatElement_def Let_def GraphElement.case)
qed

text \<open>
  Claim C4 as stated fails when two nodes share the target's id: the list below has a
  node with the edge's target id and node type stochastic, and the edge is still
  deterministic, because the first node with that id is a constant.
\<close>

theorem relationshipType_duplicate_target_counterexample:
  "data (formatElementsForCytoscape
       [Node (mk_node ''t'' Constant (Num 0, Num 0) None),
        Node (mk_node ''t'' Stochastic (Num 5, Num 5) None),
        Edge (mk_edge ''e'' ''s'' ''t'')] no_errors ! 2)
     = EdgeData (mk_edge ''e'' ''s'' ''t'') RelDeterministic
   \<and> node_id (mk_node ''t'' Stochastic (Num 5, Num 5) None) = target (mk_edge ''e'' ''s'' ''t'')
   \<and> nodeType (mk_node ''t'' Stochastic (Num 5, Num 5) None) = Stochastic"
  by (simp add: formatElementsForCytoscape_def formatElement_def mk_node_def mk_edge_def)

text \<open>
  When the ids of the list are pairwise different, the first node with the target's id
  is the only one, and the edge is stochastic exactly when some node of the list has the
  target's id and node type stochastic or observed.
\<close>

lemma find_unique_target:
  assumes "distinct (map element_id L)"
  shows "find (\<lambda>x. element_id x = t \<and> isNode x) L = Some (Node n)
           \<longleftrightarrow> Node n \<in> set L \<and> node_id n = t"
proof
  assume "find (\<lambda>x. element_id x = t \<and> isNode x) L = Some (Node n)"
  then show "Node n \<in> set L \<and> node_id n = t"
    unfolding find_first by auto
next
  assume *: "Node n \<in> set L \<and> node_id n = t"
  then obtain xs ys where L: "L = xs @ Node n # ys"
    by (auto dest: split_list)
  have "element_id y \<noteq> t" if "y \<in> set xs" for y
    using assms * that unfolding L by (auto simp: image_iff)
  then have "L = xs @ Node n # ys \<and> (element_id (Node n) = t \<and> isNode (Node n))
      \<and> (\<forall>y\<in>set xs. \<not> (element_id y = t \<and> isNode y))"
    using L * by simp
  then show "find (\<lambda>x. element_id x = t \<and> isNode x) L = Some (Node n)"
    unfolding find_first by blast
qed

lemma relationshipType_unique_ids:
  assumes "distinct (map element_id (pre @ Edge e # post))"
  shows "data (formatElementsForCytoscape (pre @ Edge e # post) E ! length pre) =
     EdgeData e
       (if (\<exists>n. Node n \<in> set (pre @ Edge e # post) \<and> node_id n = target e
               \<and> (nodeType n = Stochastic \<or> nodeType n = Observed))
        then RelStochastic else RelDeterministic)"
proof -
  let ?L = "pre @ Edge e # post"
  let ?r = "find (\<lambda>x. element_id x = target e \<and> isNode x) ?L"
  have "(opt_nodeType ?r = Some Stochastic \<or> opt_nodeType ?r = Some Observed)
      \<longleftrightarrow> (\<exists>n. Node n \<in> set ?L \<and> node_id n = target e
               \<and> (nodeType n = Stochastic \<or> nodeType n = Observed))"
    unfolding opt_nodeType_Some find_unique_target [OF assms] by blast
  then show ?thesis
    by (simp only: format_nth formatElement_def Let_def GraphElement.case
        ElementDefinition.simps)
qed

section \<open>The store under the component's calls\<close>

lemma el_id_upd [simp]:
  "el_id (e\<lparr>el_position := p\<rparr>) = el_id e"
  "el_id (e\<lparr>el_parent := q\<rparr>) = el_id e"
  "el_id (e\<lparr>el_data := d\<rparr>) = data_id d"
  by (simp_all add: el_id_def)

lemma ids_ele_data: "data_id d = i \<Longrightarrow> cy_ids (ele_data i d c) = cy_ids c"
  by (auto simp: cy_ids_def ele_data_def)

lemma ids_ele_position: "cy_ids (ele_position i p c) = cy_ids c"
  by (auto simp: cy_ids_def ele_position_def)

lemma ids_ele_move: "cy_ids (ele_move i p c) = cy_ids c"
  by (auto simp: cy_ids_def ele_move_def)

lemma ids_cy_add: "cy_ids (cy_add d c) = cy_ids c @ [data_id (data d)]"
  by (simp add: cy_ids_def cy_add_def el_id_def)

lemma getElementById_None: "getElementById c i = None \<longleftrightarrow> i \<notin> set (cy_ids c)"
  by (auto simp: getElementById_def cy_ids_def find_None_iff)

lemma get_found_id: "getElementById c j = Some e \<Longrightarrow> el_id e = j"
  unfolding getElementById_def by (auto simp: find_Some_iff)

lemma get_found_mem: "getElementById c j = Some e \<Longrightarrow> e \<in> set (cy_elements c)"
  unfolding getElementById_def by (auto simp: find_Some_iff)

lemma calls_ops [simp]:
  "cy_calls (ele_data i d c) = cy_calls c @ [OpData i]"
  "cy_calls (ele_position i p c) = cy_calls c @ [OpPosition i p]"
  "cy_calls (ele_move i q c) = cy_calls c @ [OpMove i q]"
  "cy_calls (cy_add df c) = cy_calls c @ [OpAdd (data_id (data df))]"
  "cy_calls (ele_remove i c) = cy_calls c @ [OpRemove i]"
  by (simp_all add: ele_data_def ele_position_def ele_move_def cy_add_def ele_remove_def)

lemma find_map_id:
  "(\<And>e. el_id (f e) = el_id e) \<Longrightarrow>
   find (\<lambda>e. el_id e = j) (map f xs) = map_option f (find (\<lambda>e. el_id e = j) xs)"
  by (induction xs) auto

lemma get_ele_data:
  "data_id d = i \<Longrightarrow>
   getElementById (ele_data i d c) j =
     map_option (\<lambda>e. if el_id e = i then e\<lparr>el_data := d\<rparr> else e) (getElementById c j)"
  unfolding getElementById_def ele_data_def by (simp add: find_map_id)

lemma get_ele_position:
  "getElementById (ele_position i p c) j =
     map_option (\<lambda>e. if el_id e = i then e\<lparr>el_position := p\<rparr> else e) (getElementById c j)"
  unfolding getElementById_def ele_position_def by (simp add: find_map_id)

lemma get_ele_move:
  "getElementById (ele_move i p c) j =
     map_option (\<lambda>e. if el_id e = i then e\<lparr>el_parent := p\<rparr> else e) (getElementById c j)"
  unfolding getElementById_def ele_move_def by (simp add: find_map_id)

lemma find_snoc:
  "find P (xs @ [y]) = (case find P xs of None \<Rightarrow> (if P y then Some y else None) | Some x \<Rightarrow> Some x)"
  by (induction xs) auto

lemma get_cy_add:
  "getElementById (cy_add d c) j =
     (case getElementById c j of
        None \<Rightarrow> (if data_id (data d) = j then Some (apply_def d None) else None)
      | Some e \<Rightarrow> Some e)"
  unfolding getElementById_def cy_add_def
  by (simp add: find_snoc apply_def_def el_id_def split: option.splits)

lemma map_option_other:
  "i \<noteq> j \<Longrightarrow>
   map_option (\<lambda>e. if el_id e = i then f e else e) (getElementById c j) = getElementById c j"
  by (cases "getElementById c j") (auto dest: get_found_id)

lemma get_ele_data_same:
  "getElementById c i = Some e \<Longrightarrow> data_id d = i \<Longrightarrow>
   getElementById (ele_data i d c) i = Some (e\<lparr>el_data := d\<rparr>)"
  by (simp add: get_ele_data get_found_id)

lemma get_ele_position_same:
  "getElementById c i = Some e \<Longrightarrow>
   getElementById (ele_position i p c) i = Some (e\<lparr>el_position := p\<rparr>)"
  by (simp add: get_ele_position get_found_id)

lemma get_ele_move_same:
  "getElementById c i = Some e \<Longrightarrow>
   getElementById (ele_move i q c) i = Some (e\<lparr>el_parent := q\<rparr>)"
  by (simp add: get_ele_move get_found_id)

section \<open>One step of the second loop\<close>

lemma ids_sync_element:
  "cy_ids (sync_element d c) =
     cy_ids c @ (if data_id (data d) \<noteq> [] \<and> data_id (data d) \<notin> set (cy_ids c)
                 then [data_id (data d)] else [])"
  by (auto simp: sync_element_def Let_def ids_ele_data ids_ele_position ids_ele_move ids_cy_add
      getElementById_None [symmetric] split: option.splits)

lemma get_sync_other:
  assumes "data_id (data d) \<noteq> j"
  shows "getElementById (sync_element d c) j = getElementById c j"
proof (cases "getElementById c (data_id (data d))")
  case None
  then show ?thesis using assms
    by (simp add: sync_element_def get_cy_add split: option.splits)
next
  case (Some e)
  show ?thesis using Some assms
    by (simp add: sync_element_def Let_def get_ele_data get_ele_position get_ele_move
        map_option_other split: option.splits)
qed

lemma get_sync_same:
  assumes "data_id (data d) = i" "i \<noteq> []"
  shows "getElementById (sync_element d c) i = Some (apply_def d (getElementById c i))"
proof (cases "getElementById c i")
  case None
  then show ?thesis using assms
    by (simp add: sync_element_def get_cy_add)
next
  case (Some e)
  show ?thesis using Some assms
    by (simp add: sync_element_def Let_def get_ele_data_same get_ele_position_same
        get_ele_move_same apply_def_def strict_neq_def prod_eq_iff split: option.splits)
qed


section \<open>The two loops\<close>

lemma ids_fold_sync:
  "set (cy_ids (fold sync_element D c)) =
     set (cy_ids c) \<union> (set (map (\<lambda>d. data_id (data d)) D) - {[]})"
  by (induction D arbitrary: c) (auto simp: ids_sync_element)

lemma distinct_fold_sync:
  "distinct (cy_ids c) \<Longrightarrow> distinct (cy_ids (fold sync_element D c))"
  by (induction D arbitrary: c) (auto simp: ids_sync_element)

lemma elements_fold_remove:
  "cy_elements (fold (\<lambda>cyEl c'. if el_id cyEl \<notin> S then ele_remove (el_id cyEl) c' else c') xs c)
     = filter (\<lambda>e. el_id e \<in> S \<or> el_id e \<notin> el_id ` set xs) (cy_elements c)"
proof (induction xs arbitrary: c)
  case Nil
  then show ?case by simp
next
  case (Cons x xs)
  show ?case
    by (auto simp: Cons.IH ele_remove_def intro!: filter_cong)
qed

lemma elements_remove_stale:
  "cy_elements (remove_stale ids c) = filter (\<lambda>e. el_id e \<in> set ids) (cy_elements c)"
  unfolding remove_stale_def elements_fold_remove
  by (auto intro!: filter_cong)

lemma ids_remove_stale:
  "cy_ids (remove_stale ids c) = filter (\<lambda>i. i \<in> set ids) (cy_ids c)"
  by (simp add: cy_ids_def elements_remove_stale filter_map comp_def)

lemma ids_syncBatch:
  "set (cy_ids (syncBatch c L E)) =
     (set (cy_ids c) \<inter> set (map element_id L)) \<union> (set (map element_id L) - {[]})"
  by (auto simp: syncBatch_def Let_def ids_fold_sync ids_remove_stale format_ids)

lemma distinct_syncBatch:
  "distinct (cy_ids c) \<Longrightarrow> distinct (cy_ids (syncBatch c L E))"
  by (simp add: syncBatch_def Let_def distinct_fold_sync ids_remove_stale)

lemma fold_last_def:
  assumes "i \<noteq> []" "i \<in> (\<lambda>d. data_id (data d)) ` set D"
  shows "\<exists>el. getElementById (fold sync_element D c) i = Some el \<and>
           el_data el = data (last (filter (\<lambda>d. data_id (data d) = i) D)) \<and>
           (group (last (filter (\<lambda>d. data_id (data d) = i) D)) = Nodes \<longrightarrow>
              (\<forall>p. def_position (last (filter (\<lambda>d. data_id (data d) = i) D)) = Some p
                     \<longrightarrow> el_position el = p) \<and>
              el_parent el = data_parent (data (last (filter (\<lambda>d. data_id (data d) = i) D))))"
  using assms(2)
proof (induction D rule: rev_induct)
  case Nil
  then show ?case by simp
next
  case (snoc d D)
  show ?case
  proof (cases "data_id (data d) = i")
    case True
    then show ?thesis using assms(1)
      by (simp add: get_sync_same apply_def_def split: option.splits)
  next
    case False
    then have "i \<in> (\<lambda>d. data_id (data d)) ` set D" using snoc.prems by auto
    from snoc.IH [OF this] show ?thesis using False
      by (simp add: get_sync_other)
  qed
qed




lemma unique_by_id:
  assumes "distinct (cy_ids c)" "getElementById c i = Some el"
    "e \<in> set (cy_elements c)" "el_id e = i"
  shows "e = el"
proof -
  have "inj_on el_id (set (cy_elements c))"
    using assms(1) by (simp add: cy_ids_def distinct_map)
  moreover have "el \<in> set (cy_elements c)" "el_id el = i"
    using assms(2) by (auto dest: get_found_id get_found_mem)
  ultimately show ?thesis using assms(3,4) by (auto dest: inj_onD)
qed

lemma count_by_id:
  "distinct (map f xs) \<Longrightarrow> length (filter (\<lambda>x. f x = i) xs) = (if i \<in> f ` set xs then 1 else 0)"
  by (induction xs) auto

lemma format_nodes_position:
  "d \<in> set (formatElementsForCytoscape L E) \<Longrightarrow> group d = Nodes \<Longrightarrow>
   \<exists>n. Node n \<in> set L \<and> data_id (data d) = node_id n \<and> def_position d = Some (position n)
       \<and> data_parent (data d) = parent n"
  by (auto simp: formatElementsForCytoscape_def formatElement_def Let_def split: GraphElement.splits)




















lemma distinct_ids_consistent:
  assumes "distinct (map element_id L)"
  shows "placement_consistent L"
  unfolding placement_consistent_def list_all_iff
proof (intro ballI)
  fix a b assume ab: "a \<in> set L" "b \<in> set L"
  have inj: "inj_on element_id (set L)"
    using assms by (simp add: distinct_map)
  show "agree a b"
  proof (cases a)
    case (Node n)
    note a = this
    show ?thesis
    proof (cases b)
      case (Node m)
      show ?thesis
      proof (cases "node_id n = node_id m")
        case True
        with a Node have "element_id a = element_id b" by simp
        with inj ab have "a = b" by (auto dest: inj_onD)
        with a Node show ?thesis by (simp add: agree_def)
      next
        case False
        with a Node show ?thesis by (simp add: agree_def)
      qed
    next
      case (Edge e)
      with a show ?thesis by (simp add: agree_def)
    qed
  next
    case (Edge e)
    then show ?thesis by (simp add: agree_def)
  qed
qed





section \<open>The mirror\<close>

text \<open>
  Claim C1, as the code has it. Let the rendering graph hold unique, non-empty ids, as
  every graph does that the passes built from the empty instance. After
  \<open>syncGraphWithProps\<close> over any element list \<open>L\<close>, the ids in the rendering graph
  are exactly the non-empty ids of \<open>L\<close>, each carried by one element; an entry with
  the empty id is skipped. Over the empty list the graph is left empty.
\<close>

theorem sync_mirrors_nonempty_ids:
  assumes "distinct (cy_ids c)" and "'''' \<notin> set (cy_ids c)"
  shows "\<exists>c'. syncGraphWithProps (Some c) L E = Some c'
           \<and> set (cy_ids c') = set (map element_id L) - {''''}
           \<and> distinct (cy_ids c')
           \<and> (L = [] \<longrightarrow> cy_elements c' = [])"
proof -
  let ?c' = "syncBatch c L E"
  have 1: "set (cy_ids ?c') = set (map element_id L) - {''''}"
    using assms(2) by (auto simp: ids_syncBatch)
  have 2: "distinct (cy_ids ?c')"
    using assms(1) by (rule distinct_syncBatch)
  have 3: "cy_elements ?c' = []" if "L = []"
  proof -
    from that 1 have "set (cy_ids ?c') = {}" by simp
    then show ?thesis by (simp add: cy_ids_def)
  qed
  show ?thesis
    using 1 2 3 by (simp add: syncGraphWithProps_def)
qed

theorem sync_mirrors_nonempty_ids_witness:
  "distinct (cy_ids ex_graph) \<and> '''' \<notin> set (cy_ids ex_graph)
   \<and> (\<exists>c'. syncGraphWithProps (Some ex_graph) ex_list no_errors = Some c'
          \<and> set (cy_ids c') = {''p'', ''a'', ''b'', ''e''}
          \<and> distinct (cy_ids c'))"
proof -
  have h1: "distinct (cy_ids ex_graph)" and h2: "'''' \<notin> set (cy_ids ex_graph)"
    by (simp_all add: rendered_a_def rendered_old_def ex_graph_def empty_core_def mk_node_def mk_edge_def cy_ids_def el_id_def)
  have ids: "set (map element_id ex_list) - {''''} = {''p'', ''a'', ''b'', ''e''}"
    by (auto simp: ex_list_def mk_node_def mk_edge_def)
  from sync_mirrors_nonempty_ids [OF h1 h2, of ex_list no_errors] ids
  show ?thesis using h1 h2 by auto
qed

text \<open>
  Claim C1 as stated fails on a list that holds an entry with the empty id: the pass
  skips the entry, the graph stays empty, and the id set of the list is not empty.
\<close>

theorem sync_blank_id_counterexample:
  "syncGraphWithProps (Some empty_core) blank_list no_errors = Some empty_core
   \<and> set (cy_ids empty_core) \<noteq> set (map element_id blank_list)"
  by (simp add: blank_list_def empty_core_def no_errors_def mk_node_def mk_edge_def cy_ids_def el_id_def getElementById_def syncGraphWithProps_def
      syncBatch_def remove_stale_def sync_element_def formatElementsForCytoscape_def
      formatElement_def cy_add_def ele_data_def ele_position_def ele_move_def ele_remove_def
      Let_def)

text \<open>
  Claim C10. Let the rendering graph hold unique, non-empty ids. For every id that
  occurs in the element list, once or several times, the graph after the pass has
  exactly one element with that id (none for the empty id), its payload is the payload
  of the definition made for the last occurrence of the id, and when that occurrence is
  a node its position is that node's position.
\<close>

theorem duplicate_ids_last_wins:
  assumes "distinct (cy_ids c)" and "'''' \<notin> set (cy_ids c)" and "i \<in> set (map element_id L)"
  shows "\<exists>c'. syncGraphWithProps (Some c) L E = Some c'
           \<and> length (filter (\<lambda>e. el_id e = i) (cy_elements c')) = (if i = '''' then 0 else 1)
           \<and> (\<forall>e \<in> set (cy_elements c'). el_id e = i \<longrightarrow>
                 el_data e = data (last (filter (\<lambda>d. data_id (data d) = i) (formatElementsForCytoscape L E)))
                 \<and> (group (last (filter (\<lambda>d. data_id (data d) = i) (formatElementsForCytoscape L E))) = Nodes
                      \<longrightarrow> Some (el_position e) =
                           def_position (last (filter (\<lambda>d. data_id (data d) = i) (formatElementsForCytoscape L E)))))"
proof -
  let ?F = "formatElementsForCytoscape L E"
  let ?c' = "syncBatch c L E"
  let ?lastd = "last (filter (\<lambda>d. data_id (data d) = i) ?F)"
  have ids: "set (cy_ids ?c') = set (map element_id L) - {''''}"
    using assms(2) by (auto simp: ids_syncBatch)
  have dist: "distinct (cy_ids ?c')"
    using assms(1) by (rule distinct_syncBatch)
  have count: "length (filter (\<lambda>e. el_id e = i) (cy_elements ?c')) = (if i = '''' then 0 else 1)"
    using count_by_id [of el_id "cy_elements ?c'" i] dist ids assms(3)
    by (auto simp: cy_ids_def)
  have mem: "i \<in> (\<lambda>d. data_id (data d)) ` set ?F"
    using assms(3) format_ids [of L E] by (metis set_map)
  then have ne: "filter (\<lambda>d. data_id (data d) = i) ?F \<noteq> []"
    by (auto simp: filter_empty_conv)
  then have lastmem: "?lastd \<in> set ?F"
    using last_in_set [OF ne] by auto
  have payload: "el_data e = data ?lastd
      \<and> (group ?lastd = Nodes \<longrightarrow> Some (el_position e) = def_position ?lastd)"
    if e: "e \<in> set (cy_elements ?c')" "el_id e = i" for e
  proof -
    from e have "i \<in> set (cy_ids ?c')" by (auto simp: cy_ids_def)
    with ids have i: "i \<noteq> []" by auto
    from fold_last_def [OF i mem, of "remove_stale (map element_id L) c"]
    obtain el where el: "getElementById ?c' i = Some el" "el_data el = data ?lastd"
      "group ?lastd = Nodes \<longrightarrow> (\<forall>p. def_position ?lastd = Some p \<longrightarrow> el_position el = p)"
      by (auto simp: syncBatch_def Let_def)
    have "e = el" using unique_by_id [OF dist el(1) e] .
    moreover have "Some (el_position el) = def_position ?lastd" if nodes: "group ?lastd = Nodes"
    proof -
      from format_nodes_position [OF lastmem nodes]
      obtain p where p: "def_position ?lastd = Some p" by blast
      with el(3) nodes have "el_position el = p" by blast
      with p show ?thesis by simp
    qed
    ultimately show ?thesis using el(2) by simp
  qed
  show ?thesis
    using count payload by (simp add: syncGraphWithProps_def)
qed

theorem duplicate_ids_last_wins_witness:
  "distinct (cy_ids empty_core) \<and> '''' \<notin> set (cy_ids empty_core)
   \<and> ''a'' \<in> set (map element_id dup_list)
   \<and> (\<exists>c'. syncGraphWithProps (Some empty_core) dup_list no_errors = Some c'
          \<and> length (filter (\<lambda>e. el_id e = ''a'') (cy_elements c')) = 1
          \<and> (\<forall>e \<in> set (cy_elements c'). el_id e = ''a'' \<longrightarrow>
                el_data e = NodeData (mk_node ''a'' Stochastic (Num 1, Num 1) None) False
                \<and> el_position e = (Num 1, Num 1)))"
proof -
  have h1: "distinct (cy_ids empty_core)" and h2: "'''' \<notin> set (cy_ids empty_core)"
    and h3: "''a'' \<in> set (map element_id dup_list)"
    by (simp_all add: dup_list_def empty_core_def mk_node_def mk_edge_def cy_ids_def)
  have last: "last (filter (\<lambda>d. data_id (data d) = ''a'') (formatElementsForCytoscape dup_list no_errors))
      = \<lparr>group = Nodes, data = NodeData (mk_node ''a'' Stochastic (Num 1, Num 1) None) False,
         def_position = Some (Num 1, Num 1)\<rparr>"
    by (simp add: dup_list_def no_errors_def mk_node_def mk_edge_def formatElementsForCytoscape_def formatElement_def)
  from duplicate_ids_last_wins [OF h1 h2 h3, of no_errors]
  show ?thesis using h1 h2 h3 unfolding last by auto
qed

section \<open>Unchanged nodes\<close>




section \<open>Idempotence\<close>




text \<open>
  It fails as well on a list with one node whose position has a NaN coordinate: NaN
  differs from itself under \<open>!==\<close>, and the second pass repositions the node.
\<close>

lemma second_sync_nan_position:
  "map_option cy_calls (second_sync empty_core nan_list no_errors)
     = Some [OpData ''a'', OpPosition ''a'' (NaN, Num 0)]"
  by (simp add: second_sync_def nan_list_def empty_core_def no_errors_def mk_node_def
      strict_neq_def cy_ids_def el_id_def getElementById_def syncGraphWithProps_def
      syncBatch_def remove_stale_def sync_element_def formatElementsForCytoscape_def
      formatElement_def cy_add_def ele_data_def ele_position_def ele_move_def ele_remove_def
      Let_def)

section \<open>Coordinates of a drop\<close>

text \<open>
  Claim C5. On a mounted canvas whose engine has a zoom level greater than zero, the drop
  listener sends, for a payload of one of the five node kinds, the position computed per
  axis as the pointer position less the container origin less the engine's pan, divided
  by the engine's zoom; and when the pointer is where the forward transform puts a model
  point under the engine's pan and zoom, the position sent is that model point. The
  numbers are real numbers here, so the equation is exact.
\<close>

theorem drop_position_inverts_forwardTransform:
  assumes "dataTransfer ev = Some kind" and "kind \<in> set validNodeTypes"
    and "cy st = Some c" and "cyContainer st = Some bbox" and "0 < cy_zoom c"
  shows "onDrop st ev =
           [NodeDropped kind
              ((clientX ev - bbox_left bbox - fst (cy_pan c)) / cy_zoom c,
               (clientY ev - bbox_top bbox - snd (cy_pan c)) / cy_zoom c)]
       \<and> ((clientX ev, clientY ev) =
              forwardTransform m (bbox_left bbox, bbox_top bbox) (cy_pan c) (cy_zoom c)
            \<longrightarrow> onDrop st ev = [NodeDropped kind m])"
  using assms by (auto simp: onDrop_def forwardTransform_def Let_def)

theorem drop_position_inverts_forwardTransform_witness:
  "dataTransfer (drop_of ''plate'') = Some ''plate''
   \<and> ''plate'' \<in> set validNodeTypes
   \<and> cy mounted = Some (empty_core\<lparr>cy_zoom := 2, cy_pan := (10, 20)\<rparr>)
   \<and> cyContainer mounted = Some \<lparr>bbox_left = 100, bbox_top = 50\<rparr>
   \<and> (0::real) < cy_zoom (empty_core\<lparr>cy_zoom := 2, cy_pan := (10, 20)\<rparr>)
   \<and> (clientX (drop_of ''plate''), clientY (drop_of ''plate'')) =
         forwardTransform (20, 15) (100, 50) (10, 20) 2
   \<and> onDrop mounted (drop_of ''plate'') = [NodeDropped ''plate'' (20, 15)]"
proof -
  let ?c = "empty_core\<lparr>cy_zoom := 2, cy_pan := (10, 20)\<rparr>"
  have h1: "dataTransfer (drop_of ''plate'') = Some ''plate''"
    by (simp add: drop_of_def)
  have h2: "''plate'' \<in> set validNodeTypes"
    by (simp add: validNodeTypes_def)
  have h3: "cy mounted = Some ?c" and h4: "cyContainer mounted = Some \<lparr>bbox_left = 100, bbox_top = 50\<rparr>"
    by (simp_all add: mounted_def)
  have h5: "0 < cy_zoom ?c" by simp
  have h6: "(clientX (drop_of ''plate''), clientY (drop_of ''plate'')) =
      forwardTransform (20, 15) (100, 50) (10, 20) 2"
    by (simp add: drop_of_def forwardTransform_def)
  have h7: "(clientX (drop_of ''plate''), clientY (drop_of ''plate'')) =
      forwardTransform (20, 15)
        (bbox_left \<lparr>bbox_left = 100, bbox_top = 50\<rparr>, bbox_top \<lparr>bbox_left = 100, bbox_top = 50\<rparr>)
        (cy_pan ?c) (cy_zoom ?c)"
    using h6 by simp
  from drop_position_inverts_forwardTransform [OF h1 h2 h3 h4 h5, of "(20, 15)"] h7
  have "onDrop mounted (drop_of ''plate'') = [NodeDropped ''plate'' (20, 15)]"
    by blast
  with h1 h2 h3 h4 h5 h6 show ?thesis by blast
qed

text \<open>
  Claim C9. On a mounted canvas (the listener is registered after the instance is
  created, on the container it was created in), a drop whose payload is one of the five
  node kinds emits exactly one \<open>node-dropped\<close> event, with that kind and the model
  position of the pointer; a drop with any other payload emits nothing.
\<close>

theorem drop_emits_for_valid_kinds:
  assumes "dataTransfer ev = Some kind"
  shows "(kind \<in> {''stochastic'', ''deterministic'', ''constant'', ''observed'', ''plate''}
            \<longrightarrow> cy st = Some c \<longrightarrow> cyContainer st = Some bbox \<longrightarrow>
          onDrop st ev =
            [NodeDropped kind
               ((clientX ev - bbox_left bbox - fst (cy_pan c)) / cy_zoom c,
                (clientY ev - bbox_top bbox - snd (cy_pan c)) / cy_zoom c)])
       \<and> (kind \<notin> {''stochastic'', ''deterministic'', ''constant'', ''observed'', ''plate''}
            \<longrightarrow> onDrop st ev = [])"
  using assms by (simp add: onDrop_def validNodeTypes_def Let_def)

theorem drop_emits_for_valid_kinds_witness:
  "dataTransfer (drop_of ''plate'') = Some ''plate''
   \<and> dataTransfer (drop_of ''table'') = Some ''table''
   \<and> cy mounted = Some (empty_core\<lparr>cy_zoom := 2, cy_pan := (10, 20)\<rparr>)
   \<and> cyContainer mounted = Some \<lparr>bbox_left = 100, bbox_top = 50\<rparr>
   \<and> onDrop mounted (drop_of ''plate'') = [NodeDropped ''plate'' (20, 15)]
   \<and> onDrop mounted (drop_of ''table'') = []"
proof -
  have h1: "cy mounted = Some (empty_core\<lparr>cy_zoom := 2, cy_pan := (10, 20)\<rparr>)"
    and h2: "cyContainer mounted = Some \<lparr>bbox_left = 100, bbox_top = 50\<rparr>"
    by (simp_all add: mounted_def)
  have h3: "dataTransfer (drop_of k) = Some k" for k
    by (simp add: drop_of_def)
  from drop_emits_for_valid_kinds [OF h3 [of "''plate''"], of mounted _ "\<lparr>bbox_left = 100, bbox_top = 50\<rparr>"]
    drop_emits_for_valid_kinds [OF h3 [of "''table''"], of mounted]
  show ?thesis using h1 h2 h3 by (simp add: drop_of_def empty_core_def)
qed

section \<open>Zoom\<close>

lemma zoomIn_Some:
  "cy st = Some c \<Longrightarrow>
   \<exists>c'. cy (zoomIn st) = Some c' \<and> cy_zoom c' = min (cy_zoom c * 1.2) maxZoom
        \<and> currentZoom (zoomIn st) = cy_zoom c'"
  by (simp add: zoomIn_def zoom_at_def Let_def)

lemma zoomOut_Some:
  "cy st = Some c \<Longrightarrow>
   \<exists>c'. cy (zoomOut st) = Some c' \<and> cy_zoom c' = max (cy_zoom c / 1.2) minZoom
        \<and> currentZoom (zoomOut st) = cy_zoom c'"
  by (simp add: zoomOut_def zoom_at_def Let_def)

lemma setZoomLevel_Some:
  "cy st = Some c \<Longrightarrow>
   \<exists>c'. cy (setZoomLevel v st) = Some c' \<and> cy_zoom c' = v
        \<and> currentZoom (setZoomLevel v st) = cy_zoom c'"
  by (simp add: setZoomLevel_def zoom_at_def)

lemma zoomIn_pow:
  assumes "cy st = Some c" "cy_zoom c \<le> maxZoom"
  shows "\<exists>c'. cy ((zoomIn ^^ n) st) = Some c' \<and> cy_zoom c' \<le> maxZoom"
proof (induction n)
  case 0
  with assms show ?case by simp
next
  case (Suc n)
  then obtain c' where "cy ((zoomIn ^^ n) st) = Some c'" by blast
  from zoomIn_Some [OF this] show ?case by auto
qed

lemma zoomOut_pow:
  assumes "cy st = Some c" "minZoom \<le> cy_zoom c"
  shows "\<exists>c'. cy ((zoomOut ^^ n) st) = Some c' \<and> minZoom \<le> cy_zoom c'"
proof (induction n)
  case 0
  with assms show ?case by simp
next
  case (Suc n)
  then obtain c' where "cy ((zoomOut ^^ n) st) = Some c'" by blast
  from zoomOut_Some [OF this] show ?case by auto
qed

text \<open>
  Claim C8. From a zoom level between 0.1 and 2, one \<open>zoomIn\<close> sets the level to
  \<open>min (z * 1.2) 2\<close> and one \<open>zoomOut\<close> to \<open>max (z / 1.2) 0.1\<close>; after any number of
  \<open>zoomIn\<close> calls the level is at most 2, and after any number of \<open>zoomOut\<close> calls
  it is at least 0.1.
\<close>

theorem zoom_stays_clamped:
  assumes "cy st = Some c" and "minZoom \<le> cy_zoom c" and "cy_zoom c \<le> maxZoom"
  shows "(\<exists>c'. cy (zoomIn st) = Some c' \<and> cy_zoom c' = min (cy_zoom c * 1.2) 2)
       \<and> (\<exists>c'. cy (zoomOut st) = Some c' \<and> cy_zoom c' = max (cy_zoom c / 1.2) 0.1)
       \<and> (\<exists>c'. cy ((zoomIn ^^ n) st) = Some c' \<and> cy_zoom c' \<le> 2)
       \<and> (\<exists>c'. cy ((zoomOut ^^ n) st) = Some c' \<and> 0.1 \<le> cy_zoom c')"
  using zoomIn_Some [OF assms(1)] zoomOut_Some [OF assms(1)]
    zoomIn_pow [OF assms(1,3), of n] zoomOut_pow [OF assms(1,2), of n]
  unfolding maxZoom_def minZoom_def by blast

theorem zoom_stays_clamped_witness:
  "cy mounted = Some (empty_core\<lparr>cy_zoom := 2, cy_pan := (10, 20)\<rparr>)
   \<and> minZoom \<le> cy_zoom (empty_core\<lparr>cy_zoom := 2, cy_pan := (10, 20)\<rparr>)
   \<and> cy_zoom (empty_core\<lparr>cy_zoom := 2, cy_pan := (10, 20)\<rparr>) \<le> maxZoom
   \<and> (\<exists>c'. cy (zoomIn mounted) = Some c' \<and> cy_zoom c' = 2)
   \<and> (\<exists>c'. cy ((zoomIn ^^ 5) mounted) = Some c' \<and> cy_zoom c' \<le> 2)
   \<and> (\<exists>c'. cy ((zoomOut ^^ 40) mounted) = Some c' \<and> 0.1 \<le> cy_zoom c')"
proof -
  let ?c = "empty_core\<lparr>cy_zoom := 2, cy_pan := (10, 20)\<rparr>"
  have h1: "cy mounted = Some ?c" by (simp add: mounted_def)
  have h2: "minZoom \<le> cy_zoom ?c" by (simp add: minZoom_def)
  have h3: "cy_zoom ?c \<le> maxZoom" by (simp add: maxZoom_def)
  from zoom_stays_clamped [OF h1 h2 h3, of 5] zoom_stays_clamped [OF h1 h2 h3, of 40]
  show ?thesis using h1 h2 h3 by simp
qed

text \<open>
  Claim C7, as the code has it. After \<open>zoomIn\<close>, \<open>zoomOut\<close> and
  \<open>setZoomLevel\<close> the reported zoom equals the zoom level of the rendering engine;
  after \<open>resetView\<close> the engine has the viewport its fit chose and the reported zoom
  is 1.
\<close>

theorem reported_zoom_after_operations:
  assumes "cy st = Some c"
  shows "(\<exists>c'. cy (zoomIn st) = Some c' \<and> currentZoom (zoomIn st) = cy_zoom c')
       \<and> (\<exists>c'. cy (zoomOut st) = Some c' \<and> currentZoom (zoomOut st) = cy_zoom c')
       \<and> (\<exists>c'. cy (setZoomLevel v st) = Some c' \<and> currentZoom (setZoomLevel v st) = cy_zoom c')
       \<and> cy (resetView fit st) = Some (fit c) \<and> currentZoom (resetView fit st) = 1"
  using zoomIn_Some [OF assms] zoomOut_Some [OF assms] setZoomLevel_Some [OF assms, of v] assms
  by (auto simp: resetView_def)

theorem reported_zoom_after_operations_witness:
  "cy mounted = Some (empty_core\<lparr>cy_zoom := 2, cy_pan := (10, 20)\<rparr>)
   \<and> (\<exists>c'. cy (zoomOut mounted) = Some c' \<and> currentZoom (zoomOut mounted) = cy_zoom c')
   \<and> (\<exists>c'. cy (setZoomLevel (3 / 2) mounted) = Some c'
          \<and> currentZoom (setZoomLevel (3 / 2) mounted) = cy_zoom c')
   \<and> currentZoom (resetView fit_half mounted) = 1"
proof -
  have h: "cy mounted = Some (empty_core\<lparr>cy_zoom := 2, cy_pan := (10, 20)\<rparr>)"
    by (simp add: mounted_def)
  from reported_zoom_after_operations [OF h, of "3 / 2" fit_half]
  show ?thesis using h by blast
qed

text \<open>
  Claim C7 as stated fails at \<open>resetView\<close>: when the fit chooses zoom one half, the
  reported zoom is 1 and the engine's zoom level is one half.
\<close>

theorem resetView_reported_zoom_counterexample:
  "currentZoom (resetView fit_half mounted) = 1
   \<and> map_option cy_zoom (cy (resetView fit_half mounted)) = Some (1 / 2)"
  by (simp add: resetView_def fit_half_def mounted_def)

end
